theory Spec2Isabelle
  imports Complex_Main
begin

section \<open>Domain model (types/funnel.ts)\<close>

text \<open>
  The five node kinds of the \<^verbatim>\<open>NodeType\<close> union. The static table
  \<^verbatim>\<open>NODE_TYPE_CONFIG\<close> is modelled by the three look-ups the store uses.
\<close>

datatype NodeType = salesPage | orderPage | upsell | downsell | thankYou

fun config_label :: "NodeType \<Rightarrow> string" where
  "config_label salesPage = ''Sales Page''"
| "config_label orderPage = ''Order Page''"
| "config_label upsell = ''Upsell''"
| "config_label downsell = ''Downsell''"
| "config_label thankYou = ''Thank You''"

fun config_defaultButtonLabel :: "NodeType \<Rightarrow> string" where
  "config_defaultButtonLabel salesPage = ''Buy Now''"
| "config_defaultButtonLabel orderPage = ''Complete Order''"
| "config_defaultButtonLabel upsell = ''Yes, Add This!''"
| "config_defaultButtonLabel downsell = ''Get This Instead''"
| "config_defaultButtonLabel thankYou = ''Continue''"

fun config_canHaveOutgoing :: "NodeType \<Rightarrow> bool" where
  "config_canHaveOutgoing thankYou = False"
| "config_canHaveOutgoing _ = True"

text \<open>
  \<^verbatim>\<open>FunnelNodeData\<close>: the two warning fields are optional in the source
  (\<^verbatim>\<open>hasWarning?: boolean\<close>), so an absent field (\<^verbatim>\<open>undefined\<close>) is \<open>None\<close>.
  A node carries the fields of the library's node type that the store reads or writes;
  coordinates are numbers that no operation of the store inspects.
\<close>

type_synonym XYPosition = "real \<times> real"

record FunnelNodeData =
  label :: string
  nodeType :: NodeType
  buttonLabel :: string
  hasWarning :: "bool option"
  warningMessage :: "string option"

record FunnelNode =
  node_id :: string
  position :: XYPosition
  data :: FunnelNodeData

text \<open>
  \<^verbatim>\<open>FunnelEdge = Edge\<close> of the rendering library; the handle fields are absent
  (\<open>None\<close>) on every edge of this application, whose handles carry no id.
\<close>

record FunnelEdge =
  edge_id :: string
  source :: string
  target :: string
  sourceHandle :: "string option"
  targetHandle :: "string option"
  animated :: bool

text \<open>
  \<^verbatim>\<open>FunnelState\<close> and the store's \<^verbatim>\<open>HistoryState\<close> have the same shape:
  the node and the edge collection, in insertion order.
\<close>

record FunnelState =
  nodes :: "FunnelNode list"
  edges :: "FunnelEdge list"

type_synonym HistoryState = FunnelState

section \<open>Validation pass (the validation effect of useFunnelStore)\<close>

text \<open>
  The body of the \<^verbatim>\<open>nds.map\<close> callback, up to the two local variables
  \<^verbatim>\<open>hasWarning\<close> and \<^verbatim>\<open>warningMessage\<close>: both start cleared, the sales-page
  block may set them, then the orphan block may overwrite them.
\<close>

definition computeWarning :: "FunnelEdge list \<Rightarrow> FunnelNode \<Rightarrow> bool \<times> string" where
  "computeWarning es node =
     (let outgoingEdges = filter (\<lambda>e. source e = node_id node) es;
          w0 = (False, '''');
          w1 = (if nodeType (data node) = salesPage then
                  (if length outgoingEdges = 0 then
                     (True, ''Sales page should connect to an Order page'')
                   else if length outgoingEdges > 1 then
                     (True, ''Sales page should have only one outgoing connection'')
                   else w0)
                else w0);
          w2 = (if nodeType (data node) \<noteq> salesPage then
                  (let incomingEdges = filter (\<lambda>e. target e = node_id node) es
                   in if length incomingEdges = 0 then
                        (True, ''This node is not connected to the funnel'')
                      else w1)
                else w1)
      in w2)"

text \<open>
  The end of the callback: a new node object is built only when a stored field differs
  from the computed one (\<^verbatim>\<open>!==\<close>, so an absent field differs from \<^verbatim>\<open>false\<close> and
  from the empty string). \<open>None\<close> stands for \<^verbatim>\<open>return node\<close>, the same object;
  \<open>Some n\<close> for the freshly built object \<open>n\<close>.
\<close>

definition validateNode :: "FunnelEdge list \<Rightarrow> FunnelNode \<Rightarrow> FunnelNode option" where
  "validateNode es node =
     (case computeWarning es node of (hw, msg) \<Rightarrow>
        if hasWarning (data node) \<noteq> Some hw \<or> warningMessage (data node) \<noteq> Some msg
        then Some (node\<lparr>data := (data node)\<lparr>hasWarning := Some hw, warningMessage := Some msg\<rparr>\<rparr>)
        else None)"

definition validatedNode :: "FunnelEdge list \<Rightarrow> FunnelNode \<Rightarrow> FunnelNode" where
  "validatedNode es node = (case validateNode es node of None \<Rightarrow> node | Some n \<Rightarrow> n)"

definition validationPass :: "FunnelEdge list \<Rightarrow> FunnelNode list \<Rightarrow> FunnelNode list" where
  "validationPass es nds = map (validatedNode es) nds"

section \<open>Label counters\<close>

definition createLabelCounter :: "NodeType \<Rightarrow> nat" where
  "createLabelCounter =
     (\<lambda>k. case k of salesPage \<Rightarrow> 1 | orderPage \<Rightarrow> 1 | upsell \<Rightarrow> 0 | downsell \<Rightarrow> 0 | thankYou \<Rightarrow> 1)"

text \<open>
  \<^verbatim>\<open>label.match(/(\d+)$/)\<close> followed by \<^verbatim>\<open>parseInt(match[1], 10)\<close>: the longest
  run of ASCII digits (the characters 48 to 57) at the end of the label, read in base ten;
  no match when the label does not end in a digit. Counters are natural numbers here; the source's are doubles,
  which agree with them below \<open>2 ^ 53\<close>.
\<close>

definition isDigit :: "char \<Rightarrow> bool" where
  "isDigit c = (48 \<le> (of_char c :: nat) \<and> (of_char c :: nat) \<le> 57)"

definition digitValue :: "char \<Rightarrow> nat" where
  "digitValue c = of_char c - 48"

definition parseInt10 :: "string \<Rightarrow> nat" where
  "parseInt10 ds = foldl (\<lambda>acc c. 10 * acc + digitValue c) 0 ds"

definition matchTrailingInt :: "string \<Rightarrow> nat option" where
  "matchTrailingInt l =
     (let ds = rev (takeWhile isDigit (rev l))
      in if ds = [] then None else Some (parseInt10 ds))"

text \<open>The \<^verbatim>\<open>forEach\<close> callback of the load effect, and the one of \<^verbatim>\<open>importFunnel\<close>.\<close>

definition loadCountStep :: "(NodeType \<Rightarrow> nat) \<Rightarrow> FunnelNode \<Rightarrow> (NodeType \<Rightarrow> nat)" where
  "loadCountStep counts node =
     (case matchTrailingInt (label (data node)) of
        Some num \<Rightarrow>
          if num \<ge> counts (nodeType (data node))
          then counts(nodeType (data node) := num) else counts
      | None \<Rightarrow>
          counts(nodeType (data node) := max (counts (nodeType (data node))) 1))"

definition importCountStep :: "(NodeType \<Rightarrow> nat) \<Rightarrow> FunnelNode \<Rightarrow> (NodeType \<Rightarrow> nat)" where
  "importCountStep counts node =
     (case matchTrailingInt (label (data node)) of
        Some num \<Rightarrow>
          if num \<ge> counts (nodeType (data node))
          then counts(nodeType (data node) := num) else counts
      | None \<Rightarrow> counts)"

definition reconstructOnLoad :: "FunnelNode list \<Rightarrow> (NodeType \<Rightarrow> nat)" where
  "reconstructOnLoad nds = foldl loadCountStep createLabelCounter nds"

definition reconstructOnImport :: "FunnelNode list \<Rightarrow> (NodeType \<Rightarrow> nat)" where
  "reconstructOnImport nds = foldl importCountStep createLabelCounter nds"

text \<open>Decimal rendering of a counter inside a template literal.\<close>

definition digitChar :: "nat \<Rightarrow> char" where
  "digitChar d = char_of (48 + d)"

function showNat :: "nat \<Rightarrow> string" where
  "showNat n = (if n < 10 then [digitChar n] else showNat (n div 10) @ [digitChar (n mod 10)])"
  by pat_completeness auto
termination
  by (relation "measure (\<lambda>n. n)") auto

declare showNat.simps [simp del]

text \<open>The label computed inside \<^verbatim>\<open>addNode\<close> from the incremented counter.\<close>

definition allocateLabel :: "NodeType \<Rightarrow> nat \<Rightarrow> string" where
  "allocateLabel k newCount =
     (if k = upsell \<or> k = downsell then config_label k @ '' '' @ showNat newCount
      else if newCount > 1 then config_label k @ '' '' @ showNat newCount
      else config_label k)"

section \<open>The store: state, refs and storage\<close>

text \<open>
  What \<^verbatim>\<open>localStorage.getItem(STORAGE_KEY)\<close> and \<^verbatim>\<open>JSON.parse\<close> give the load
  effect: nothing, a text that does not parse to a funnel state, or a saved state.
\<close>

datatype storageItem = Absent | Unparsable | Saved FunnelState

text \<open>
  The hook's state variables (\<^verbatim>\<open>useState\<close>) and refs (\<^verbatim>\<open>useRef\<close>), as an
  extension of the funnel state. \<open>dragDebounceTimer\<close> is the pending timer with the
  state its callback captured, if one is armed.
\<close>

record funnelStore = FunnelState +
  labelCounts :: "NodeType \<Rightarrow> nat"
  isInitialized :: bool
  history :: "HistoryState list"
  currentIndex :: int
  currentIndexRef :: int
  isUndoRedoRef :: bool
  isInitialLoadRef :: bool
  isValidationUpdateRef :: bool
  isDraggingRef :: bool
  dragDebounceTimer :: "HistoryState option"
  storage :: storageItem

definition MAX_HISTORY_SIZE :: nat where
  "MAX_HISTORY_SIZE = 50"

definition initialNodes :: "FunnelNode list" where
  "initialNodes =
     [\<lparr>node_id = ''sales-1'', position = (250, 50),
       data = \<lparr>label = ''Sales Page'', nodeType = salesPage, buttonLabel = ''Buy Now'',
                hasWarning = None, warningMessage = None\<rparr>\<rparr>,
      \<lparr>node_id = ''order-1'', position = (250, 300),
       data = \<lparr>label = ''Order Page'', nodeType = orderPage, buttonLabel = ''Complete Order'',
                hasWarning = None, warningMessage = None\<rparr>\<rparr>,
      \<lparr>node_id = ''thankyou-1'', position = (250, 550),
       data = \<lparr>label = ''Thank You'', nodeType = thankYou, buttonLabel = ''Continue'',
                hasWarning = None, warningMessage = None\<rparr>\<rparr>]"

definition initialEdges :: "FunnelEdge list" where
  "initialEdges =
     [\<lparr>edge_id = ''e-sales-order'', source = ''sales-1'', target = ''order-1'',
       sourceHandle = None, targetHandle = None, animated = True\<rparr>,
      \<lparr>edge_id = ''e-order-thankyou'', source = ''order-1'', target = ''thankyou-1'',
       sourceHandle = None, targetHandle = None, animated = True\<rparr>]"

text \<open>The values of the first render, before any effect has run.\<close>

definition mountStore :: "storageItem \<Rightarrow> funnelStore" where
  "mountStore item =
     \<lparr>nodes = [], edges = [], labelCounts = createLabelCounter, isInitialized = False,
      history = [], currentIndex = - 1, currentIndexRef = - 1, isUndoRedoRef = False,
      isInitialLoadRef = True, isValidationUpdateRef = False, isDraggingRef = False,
      dragDebounceTimer = None, storage = item\<rparr>"

text \<open>
  \<^verbatim>\<open>JSON.parse(JSON.stringify(v))\<close> is the identity on the values of this model, so
  a snapshot of the store is its funnel state.
\<close>

definition snapshotOf :: "funnelStore \<Rightarrow> HistoryState" where
  "snapshotOf s = \<lparr>nodes = nodes s, edges = edges s\<rparr>"

text \<open>\<^verbatim>\<open>xs.slice(0, e)\<close>: a negative end counts from the end of the array.\<close>

definition slice0 :: "'a list \<Rightarrow> int \<Rightarrow> 'a list" where
  "slice0 xs e =
     (let n = int (length xs);
          k = (if e < 0 then max (n + e) 0 else min e n)
      in take (nat k) xs)"

text \<open>\<^verbatim>\<open>xs[i]\<close>, which is \<^verbatim>\<open>undefined\<close> outside the array.\<close>

definition nthOpt :: "'a list \<Rightarrow> int \<Rightarrow> 'a option" where
  "nthOpt xs i = (if 0 \<le> i \<and> i < int (length xs) then Some (xs ! nat i) else None)"

section \<open>Effects\<close>

text \<open>
  The updater passed to \<^verbatim>\<open>setHistory\<close> by the snapshot code (the same function in
  the timer callback and in the non-dragging path), with its inner
  \<^verbatim>\<open>setCurrentIndex(nextIndex)\<close>. It reads \<^verbatim>\<open>currentIndexRef.current\<close> when it
  runs.
\<close>

definition pushHistory :: "HistoryState \<Rightarrow> funnelStore \<Rightarrow> funnelStore" where
  "pushHistory currentState s =
     (let sliced = slice0 (history s) (currentIndexRef s + 1);
          nextHistory = sliced @ [currentState]
      in if length nextHistory > MAX_HISTORY_SIZE
         then s\<lparr>history := tl nextHistory, currentIndex := int MAX_HISTORY_SIZE - 1\<rparr>
         else s\<lparr>history := nextHistory, currentIndex := int (length nextHistory) - 1\<rparr>)"

text \<open>
  The effect on \<^verbatim>\<open>[currentIndex]\<close> that keeps the ref in sync. It is the only writer
  of the ref, so the ref holds the index of the previous commit when the effect is
  skipped because the index did not change; running it at every commit gives the same ref.
\<close>

definition syncIndexRef :: "funnelStore \<Rightarrow> funnelStore" where
  "syncIndexRef s = s\<lparr>currentIndexRef := currentIndex s\<rparr>"

text \<open>The effect on \<^verbatim>\<open>[nodes, edges, isInitialized]\<close>: save, then track history.\<close>

definition saveHistoryEffect :: "funnelStore \<Rightarrow> funnelStore" where
  "saveHistoryEffect s =
     (if isInitialized s then
        (let s1 = s\<lparr>storage := Saved (snapshotOf s)\<rparr>
         in if isInitialLoadRef s1 then
              s1\<lparr>isInitialLoadRef := False, history := [snapshotOf s], currentIndex := 0\<rparr>
            else if isUndoRedoRef s1 then s1\<lparr>isUndoRedoRef := False\<rparr>
            else if isValidationUpdateRef s1 then s1\<lparr>isValidationUpdateRef := False\<rparr>
            else if isDraggingRef s1 then s1\<lparr>dragDebounceTimer := Some (snapshotOf s)\<rparr>
            else pushHistory (snapshotOf s) s1)
      else s)"

text \<open>The effect on \<^verbatim>\<open>[edges, isInitialized]\<close>: recompute the warnings.\<close>

definition validationEffect :: "funnelStore \<Rightarrow> funnelStore" where
  "validationEffect s =
     (if \<not> isInitialized s then s
      else s\<lparr>isValidationUpdateRef := True, nodes := validationPass (edges s) (nodes s)\<rparr>)"

text \<open>
  One pass of effects after a commit, in declaration order; the three flags say which
  dependencies changed identity in the render just committed (the cleanup effect and,
  after the mount, the load effect have no dependencies and do not run again). The state
  updates an effect queues are applied where it queues them: React applies them in the
  next render, and nothing in between reads or writes what they touch. The history
  effect, which reads \<^verbatim>\<open>nodes\<close> and \<^verbatim>\<open>edges\<close> of the committed render, runs
  before the validation effect rewrites the nodes.
\<close>

definition runEffects :: "bool \<Rightarrow> bool \<Rightarrow> bool \<Rightarrow> funnelStore \<Rightarrow> funnelStore" where
  "runEffects nodesChanged edgesChanged initChanged s =
     (let s1 = syncIndexRef s;
          s2 = (if nodesChanged \<or> edgesChanged \<or> initChanged then saveHistoryEffect s1 else s1);
          s3 = (if edgesChanged \<or> initChanged then validationEffect s2 else s2)
      in s3)"

text \<open>
  A commit and everything it triggers. The validation effect always hands React a new
  array (\<^verbatim>\<open>nds.map\<close>), so when it ran the component renders again with only
  \<^verbatim>\<open>nodes\<close> changed and the effects run a second time; the render that follows a
  last change of \<^verbatim>\<open>currentIndex\<close> only refreshes the ref.
\<close>

definition commit :: "bool \<Rightarrow> bool \<Rightarrow> bool \<Rightarrow> funnelStore \<Rightarrow> funnelStore" where
  "commit nodesChanged edgesChanged initChanged s =
     (let s1 = runEffects nodesChanged edgesChanged initChanged s;
          s2 = (if isInitialized s \<and> (edgesChanged \<or> initChanged)
                then runEffects True False False s1 else s1)
      in syncIndexRef s2)"

text \<open>The load effect, and the whole start-up: mount, load, first commits.\<close>

definition loadEffect :: "funnelStore \<Rightarrow> funnelStore" where
  "loadEffect s =
     (case storage s of
        Saved st \<Rightarrow>
          s\<lparr>nodes := nodes st, edges := edges st,
            labelCounts := reconstructOnLoad (nodes st), isInitialized := True\<rparr>
      | _ \<Rightarrow> s\<lparr>nodes := initialNodes, edges := initialEdges, isInitialized := True\<rparr>)"

definition initialize :: "storageItem \<Rightarrow> funnelStore" where
  "initialize item = commit True True True (loadEffect (syncIndexRef (mountStore item)))"

section \<open>Operations of the store\<close>

text \<open>
  \<^verbatim>\<open>addEdge\<close> belongs to the rendering library, not to this repository. It is
  modelled on the library's behaviour: a connection with an empty source or target is
  dropped, the new edge gets an id built from its end points, a connection that already
  exists between the same end points and handles is dropped, and otherwise the edge is
  appended. It never looks at the node collection, which it is not given. The array it
  returns is either the one it received or a longer one.
\<close>

record Connection =
  conn_source :: string
  conn_target :: string
  conn_sourceHandle :: "string option"
  conn_targetHandle :: "string option"

definition handleOrEmpty :: "string option \<Rightarrow> string" where
  "handleOrEmpty h = (case h of None \<Rightarrow> [] | Some t \<Rightarrow> t)"

definition getEdgeId :: "Connection \<Rightarrow> string" where
  "getEdgeId c =
     ''xy-edge__'' @ conn_source c @ handleOrEmpty (conn_sourceHandle c) @ ''-'' @
     conn_target c @ handleOrEmpty (conn_targetHandle c)"

definition connectionExists :: "FunnelEdge \<Rightarrow> FunnelEdge list \<Rightarrow> bool" where
  "connectionExists edge eds =
     list_ex (\<lambda>el. source el = source edge \<and> target el = target edge \<and>
                 (sourceHandle el = sourceHandle edge \<or>
                  (handleOrEmpty (sourceHandle el) = [] \<and> handleOrEmpty (sourceHandle edge) = [])) \<and>
                 (targetHandle el = targetHandle edge \<or>
                  (handleOrEmpty (targetHandle el) = [] \<and> handleOrEmpty (targetHandle edge) = []))) eds"

definition addEdge :: "Connection \<Rightarrow> bool \<Rightarrow> FunnelEdge list \<Rightarrow> FunnelEdge list" where
  "addEdge c anim eds =
     (if conn_source c = [] \<or> conn_target c = [] then eds
      else
        (let edge = \<lparr>edge_id = getEdgeId c, source = conn_source c, target = conn_target c,
                     sourceHandle = conn_sourceHandle c, targetHandle = conn_targetHandle c,
                     animated = anim\<rparr>
         in if connectionExists edge eds then eds else eds @ [edge]))"

text \<open>
  \<^verbatim>\<open>onConnect\<close>. When \<^verbatim>\<open>addEdge\<close> returns the array it was given, React sees
  the same state and does not render; the returned array is the given one exactly when
  it is equal to it, since the other result is longer.
\<close>

definition onConnect :: "Connection \<Rightarrow> funnelStore \<Rightarrow> funnelStore" where
  "onConnect connection s =
     (let sourceNode = find (\<lambda>n. node_id n = conn_source connection) (nodes s)
      in if (case sourceNode of None \<Rightarrow> False | Some n \<Rightarrow> nodeType (data n) = thankYou)
         then s
         else
           (let eds = addEdge connection True (edges s)
            in if eds = edges s then s else commit False True False (s\<lparr>edges := eds\<rparr>)))"

text \<open>
  \<^verbatim>\<open>onNodesChange\<close> and \<^verbatim>\<open>onEdgesChange\<close>. The library's
  \<^verbatim>\<open>applyNodeChanges\<close> and \<^verbatim>\<open>applyEdgeChanges\<close>, applied to the changes, are
  taken as the functions \<open>app\<close> they denote, which return a new array;
  \<open>hasPositionChange\<close> is what the handler computes from the changes.
\<close>

definition onNodesChange ::
  "bool \<Rightarrow> (FunnelNode list \<Rightarrow> FunnelNode list) \<Rightarrow> funnelStore \<Rightarrow> funnelStore" where
  "onNodesChange hasPositionChange app s =
     commit True False False (s\<lparr>isDraggingRef := hasPositionChange, nodes := app (nodes s)\<rparr>)"

definition onEdgesChange ::
  "(FunnelEdge list \<Rightarrow> FunnelEdge list) \<Rightarrow> funnelStore \<Rightarrow> funnelStore" where
  "onEdgesChange app s = commit False True False (s\<lparr>edges := app (edges s)\<rparr>)"

text \<open>The callback of the drag timer, when one is pending.\<close>

definition dragTimerCallback :: "funnelStore \<Rightarrow> funnelStore" where
  "dragTimerCallback s =
     (case dragDebounceTimer s of
        None \<Rightarrow> s
      | Some currentState \<Rightarrow>
          syncIndexRef (pushHistory currentState (s\<lparr>isDraggingRef := False, dragDebounceTimer := None\<rparr>)))"

fun nodeTypeName :: "NodeType \<Rightarrow> string" where
  "nodeTypeName salesPage = ''salesPage''"
| "nodeTypeName orderPage = ''orderPage''"
| "nodeTypeName upsell = ''upsell''"
| "nodeTypeName downsell = ''downsell''"
| "nodeTypeName thankYou = ''thankYou''"

text \<open>\<^verbatim>\<open>addNode\<close>; \<open>now\<close> is the value of \<^verbatim>\<open>Date.now()\<close>.\<close>

definition addNode :: "NodeType \<Rightarrow> XYPosition \<Rightarrow> nat \<Rightarrow> funnelStore \<Rightarrow> funnelStore" where
  "addNode k pos now s =
     (let newCount = labelCounts s k + 1;
          newCounts = (labelCounts s)(k := newCount);
          newNode = \<lparr>node_id = nodeTypeName k @ ''-'' @ showNat now, position = pos,
                     data = \<lparr>label = allocateLabel k newCount, nodeType = k,
                              buttonLabel = config_defaultButtonLabel k,
                              hasWarning = None, warningMessage = None\<rparr>\<rparr>
      in commit True False False (s\<lparr>labelCounts := newCounts, nodes := nodes s @ [newNode]\<rparr>))"

definition deleteNode :: "string \<Rightarrow> funnelStore \<Rightarrow> funnelStore" where
  "deleteNode nodeId s =
     commit True True False
       (s\<lparr>nodes := filter (\<lambda>n. node_id n \<noteq> nodeId) (nodes s),
          edges := filter (\<lambda>e. source e \<noteq> nodeId \<and> target e \<noteq> nodeId) (edges s)\<rparr>)"

definition deleteEdge :: "string \<Rightarrow> funnelStore \<Rightarrow> funnelStore" where
  "deleteEdge edgeId s =
     commit False True False (s\<lparr>edges := filter (\<lambda>e. edge_id e \<noteq> edgeId) (edges s)\<rparr>)"

definition clearFunnel :: "funnelStore \<Rightarrow> funnelStore" where
  "clearFunnel s =
     commit True True False
       (s\<lparr>nodes := [], edges := [], labelCounts := createLabelCounter,
          history := [\<lparr>nodes = [], edges = []\<rparr>], currentIndex := 0\<rparr>)"

text \<open>
  The state updates of a successful \<^verbatim>\<open>importFunnel\<close>, for a text that parses to the
  funnel state \<open>st\<close>, and the renders they trigger.
\<close>

definition importState :: "FunnelState \<Rightarrow> funnelStore \<Rightarrow> funnelStore" where
  "importState st s =
     commit True True False
       (s\<lparr>nodes := nodes st, edges := edges st, history := [st], currentIndex := 0,
          labelCounts := reconstructOnImport (nodes st)\<rparr>)"

definition undo :: "funnelStore \<Rightarrow> funnelStore" where
  "undo s =
     (if currentIndex s \<le> 0 then s
      else
        (let newIndex = currentIndex s - 1;
             s1 = s\<lparr>isUndoRedoRef := True, currentIndex := newIndex\<rparr>
         in case nthOpt (history s) newIndex of
              Some previousState \<Rightarrow>
                commit True True False
                  (s1\<lparr>nodes := nodes previousState, edges := edges previousState\<rparr>)
            | None \<Rightarrow> commit False False False s1))"

definition redo :: "funnelStore \<Rightarrow> funnelStore" where
  "redo s =
     (if currentIndex s \<ge> int (length (history s)) - 1 then s
      else
        (let newIndex = currentIndex s + 1;
             s1 = s\<lparr>isUndoRedoRef := True, currentIndex := newIndex\<rparr>
         in case nthOpt (history s) newIndex of
              Some nextState \<Rightarrow>
                commit True True False (s1\<lparr>nodes := nodes nextState, edges := edges nextState\<rparr>)
            | None \<Rightarrow> commit False False False s1))"

definition canUndo :: "funnelStore \<Rightarrow> bool" where
  "canUndo s = (currentIndex s > 0)"

definition canRedo :: "funnelStore \<Rightarrow> bool" where
  "canRedo s = (currentIndex s < int (length (history s)) - 1)"

text \<open>The user's mutations, and runs of mutations.\<close>

datatype mutation =
    OnNodesChange bool "FunnelNode list \<Rightarrow> FunnelNode list"
  | OnEdgesChange "FunnelEdge list \<Rightarrow> FunnelEdge list"
  | OnConnect Connection
  | AddNode NodeType XYPosition nat
  | DeleteNode string
  | DeleteEdge string
  | ImportFunnel FunnelState
  | ClearFunnel

fun applyMutation :: "mutation \<Rightarrow> funnelStore \<Rightarrow> funnelStore" where
  "applyMutation (OnNodesChange hasPositionChange app) s = onNodesChange hasPositionChange app s"
| "applyMutation (OnEdgesChange app) s = onEdgesChange app s"
| "applyMutation (OnConnect c) s = onConnect c s"
| "applyMutation (AddNode k pos now) s = addNode k pos now s"
| "applyMutation (DeleteNode nodeId) s = deleteNode nodeId s"
| "applyMutation (DeleteEdge edgeId) s = deleteEdge edgeId s"
| "applyMutation (ImportFunnel st) s = importState st s"
| "applyMutation ClearFunnel s = clearFunnel s"

fun isDrag :: "mutation \<Rightarrow> bool" where
  "isDrag (OnNodesChange hasPositionChange app) = hasPositionChange"
| "isDrag _ = False"

definition applyMutations :: "mutation list \<Rightarrow> funnelStore \<Rightarrow> funnelStore" where
  "applyMutations ms s = foldl (\<lambda>t m. applyMutation m t) s ms"

text \<open>
  Runs of events: the user's mutations, drags among them, interleaved with firings of the
  drag timer.
\<close>

datatype event = Mutation mutation | TimerFires

fun applyEvent :: "event \<Rightarrow> funnelStore \<Rightarrow> funnelStore" where
  "applyEvent (Mutation m) s = applyMutation m s"
| "applyEvent TimerFires s = dragTimerCallback s"

definition applyEvents :: "event list \<Rightarrow> funnelStore \<Rightarrow> funnelStore" where
  "applyEvents es s = foldl (\<lambda>t e. applyEvent e t) s es"

section \<open>The validation rules as the specification words them\<close>

text \<open>
  The number of edges leaving and entering a node, and the warning state the
  specification prescribes: for a sales page by its outgoing edges, for any other node by
  its incoming edges; no warning is the flag cleared and the empty message.
\<close>

definition outgoingCount :: "FunnelEdge list \<Rightarrow> FunnelNode \<Rightarrow> nat" where
  "outgoingCount es n = count_list (map source es) (node_id n)"

definition incomingCount :: "FunnelEdge list \<Rightarrow> FunnelNode \<Rightarrow> nat" where
  "incomingCount es n = count_list (map target es) (node_id n)"

definition specWarning :: "FunnelEdge list \<Rightarrow> FunnelNode \<Rightarrow> bool \<times> string" where
  "specWarning es n =
     (if nodeType (data n) = salesPage then
        (if outgoingCount es n = 0 then (True, ''Sales page should connect to an Order page'')
         else if outgoingCount es n > 1 then
           (True, ''Sales page should have only one outgoing connection'')
         else (False, []))
      else if incomingCount es n = 0 then (True, ''This node is not connected to the funnel'')
      else (False, []))"

text \<open>A node with its two warning fields set and everything else as it was.\<close>

definition withWarning :: "bool \<times> string \<Rightarrow> FunnelNode \<Rightarrow> FunnelNode" where
  "withWarning w n =
     n\<lparr>data := (data n)\<lparr>hasWarning := Some (fst w), warningMessage := Some (snd w)\<rparr>\<rparr>"

section \<open>Conditions on the store used in the statements\<close>

text \<open>
  \<open>quiet\<close>: the store is initialised, no skip flag is pending and no drag is going on.
  \<open>settled\<close>: moreover the ref mirrors the current index, as after every commit.
  \<open>historyOk\<close>: the history is within its bound and the current index points into it.
\<close>

definition quiet :: "funnelStore \<Rightarrow> bool" where
  "quiet s = (isInitialized s \<and> \<not> isInitialLoadRef s \<and> \<not> isUndoRedoRef s \<and>
              \<not> isValidationUpdateRef s \<and> \<not> isDraggingRef s)"

definition settled :: "funnelStore \<Rightarrow> bool" where
  "settled s = (quiet s \<and> currentIndexRef s = currentIndex s)"

definition historyOk :: "funnelStore \<Rightarrow> bool" where
  "historyOk s = (length (history s) \<le> MAX_HISTORY_SIZE \<and> 0 \<le> currentIndex s \<and>
                  currentIndex s < int (length (history s)))"

text \<open>
  The history that results from recording \<open>st\<close> on top of the entries up to index \<open>i\<close>
  of \<open>h\<close>: the future entries are dropped, \<open>st\<close> is appended, and the oldest entry goes
  when the bound is exceeded.
\<close>

definition pushed :: "HistoryState list \<Rightarrow> int \<Rightarrow> HistoryState \<Rightarrow> HistoryState list" where
  "pushed h i st =
     (let nextHistory = slice0 h (i + 1) @ [st]
      in if length nextHistory > MAX_HISTORY_SIZE then tl nextHistory else nextHistory)"

text \<open>
  \<open>topRecorded\<close>: the latest history entry has the store's edges, and its nodes are the
  store's nodes up to the warning fields the validation pass recomputes.
  \<open>atEntry\<close>: the store shows the history entry at the current index, validated.
\<close>

definition topRecorded :: "funnelStore \<Rightarrow> bool" where
  "topRecorded s =
     (history s \<noteq> [] \<and> edges (last (history s)) = edges s \<and>
      validationPass (edges s) (nodes (last (history s))) = validationPass (edges s) (nodes s))"


definition storeInv :: "funnelStore \<Rightarrow> bool" where
  "storeInv s =
     (settled s \<and> historyOk s \<and> currentIndex s = int (length (history s)) - 1 \<and> topRecorded s)"












section \<open>importFunnel on parsed JSON\<close>

text \<open>
  \<^verbatim>\<open>importFunnel\<close> casts whatever \<^verbatim>\<open>JSON.parse\<close> returns to the type of a funnel
  state without checking it, so its behaviour is defined on every JSON value. JSON values,
  and the three ways the \<^verbatim>\<open>try\<close> block can throw:
\<close>

datatype json =
    JNull
  | JBool bool
  | JNumber real
  | JString string
  | JArray "json list"
  | JObject "(string \<times> json) list"

datatype jsError = SyntaxError | TypeError | InvalidFunnelFormat

text \<open>
  A JavaScript value here is \<^verbatim>\<open>undefined\<close> (\<open>None\<close>) or a JSON value. Reading one of
  the properties \<^verbatim>\<open>nodes\<close>, \<^verbatim>\<open>edges\<close>, \<^verbatim>\<open>data\<close>, \<^verbatim>\<open>label\<close>,
  \<^verbatim>\<open>nodeType\<close> throws on \<^verbatim>\<open>undefined\<close> and \<^verbatim>\<open>null\<close>, finds the last entry of
  that name in an object, and is \<^verbatim>\<open>undefined\<close> on numbers, booleans, strings and
  arrays, which have no property of these names.
\<close>

definition getProperty :: "json option \<Rightarrow> string \<Rightarrow> jsError + json option" where
  "getProperty v k =
     (case v of
        None \<Rightarrow> Inl TypeError
      | Some JNull \<Rightarrow> Inl TypeError
      | Some (JObject kvs) \<Rightarrow> Inr (map_of (rev kvs) k)
      | Some _ \<Rightarrow> Inr None)"

definition truthy :: "json option \<Rightarrow> bool" where
  "truthy v =
     (case v of
        None \<Rightarrow> False
      | Some JNull \<Rightarrow> False
      | Some (JBool b) \<Rightarrow> b
      | Some (JNumber r) \<Rightarrow> r \<noteq> 0
      | Some (JString t) \<Rightarrow> t \<noteq> []
      | Some _ \<Rightarrow> True)"

definition kindOfName :: "string \<Rightarrow> NodeType option" where
  "kindOfName t =
     (if t = ''salesPage'' then Some salesPage
      else if t = ''orderPage'' then Some orderPage
      else if t = ''upsell'' then Some upsell
      else if t = ''downsell'' then Some downsell
      else if t = ''thankYou'' then Some thankYou
      else None)"

text \<open>
  \<^verbatim>\<open>counts[node.data.nodeType]\<close> converts the value to a property name. The name is
  one of the five counters only for the string itself or for an array holding nothing but
  such a value (an array converts to its elements joined by commas); every other name
  reads \<^verbatim>\<open>undefined\<close> or an inherited function, against which \<^verbatim>\<open>num >=\<close> is
  false, so nothing is assigned.
\<close>

fun countsKey :: "json \<Rightarrow> NodeType option" where
  "countsKey (JString t) = kindOfName t"
| "countsKey (JArray [v]) = countsKey v"
| "countsKey _ = None"

text \<open>
  The \<^verbatim>\<open>forEach\<close> callback of \<^verbatim>\<open>importFunnel\<close> on an arbitrary array element:
  \<^verbatim>\<open>node.data.label.match\<close> exists only when the label is a string.
\<close>

definition importLabelStep :: "(NodeType \<Rightarrow> nat) \<Rightarrow> json \<Rightarrow> jsError + (NodeType \<Rightarrow> nat)" where
  "importLabelStep counts node =
     (case getProperty (Some node) ''data'' of
        Inl e \<Rightarrow> Inl e
      | Inr d \<Rightarrow>
          (case getProperty d ''label'' of
             Inl e \<Rightarrow> Inl e
           | Inr (Some (JString l)) \<Rightarrow>
               (case matchTrailingInt l of
                  None \<Rightarrow> Inr counts
                | Some num \<Rightarrow>
                    (case getProperty d ''nodeType'' of
                       Inl e \<Rightarrow> Inl e
                     | Inr None \<Rightarrow> Inr counts
                     | Inr (Some t) \<Rightarrow>
                         (case countsKey t of
                            None \<Rightarrow> Inr counts
                          | Some k \<Rightarrow> Inr (if num \<ge> counts k then counts(k := num) else counts))))
           | Inr _ \<Rightarrow> Inl TypeError))"

fun importLabelCounts :: "(NodeType \<Rightarrow> nat) \<Rightarrow> json list \<Rightarrow> jsError + (NodeType \<Rightarrow> nat)" where
  "importLabelCounts counts [] = Inr counts"
| "importLabelCounts counts (node # rest) =
     (case importLabelStep counts node of
        Inl e \<Rightarrow> Inl e
      | Inr counts' \<Rightarrow> importLabelCounts counts' rest)"

text \<open>\<^verbatim>\<open>state.nodes.forEach(...)\<close>: only an array has \<^verbatim>\<open>forEach\<close>.\<close>

definition forEachNode :: "json \<Rightarrow> jsError + (NodeType \<Rightarrow> nat)" where
  "forEachNode ns =
     (case ns of
        JArray xs \<Rightarrow> importLabelCounts createLabelCounter xs
      | _ \<Rightarrow> Inl TypeError)"

text \<open>The calls of state setters, in the order they are made.\<close>

datatype stateWrite =
    SetNodes json
  | SetEdges json
  | SetHistory "(json \<times> json) list"
  | SetCurrentIndex int
  | SetLabelCounts "NodeType \<Rightarrow> nat"

text \<open>
  The body of the \<^verbatim>\<open>try\<close> block: the error thrown or \<^verbatim>\<open>true\<close>, with the state
  setters called up to that point. \<open>parsed\<close> is what \<^verbatim>\<open>JSON.parse\<close> gives for the
  text, \<open>None\<close> when it throws.
\<close>

definition importFunnelBody :: "json option \<Rightarrow> (jsError + bool) \<times> stateWrite list" where
  "importFunnelBody parsed =
     (case parsed of
        None \<Rightarrow> (Inl SyntaxError, [])
      | Some state \<Rightarrow>
          (case getProperty (Some state) ''nodes'' of
             Inl e \<Rightarrow> (Inl e, [])
           | Inr None \<Rightarrow> (Inl InvalidFunnelFormat, [])
           | Inr (Some ns) \<Rightarrow>
               if \<not> truthy (Some ns) then (Inl InvalidFunnelFormat, [])
               else
                 (case getProperty (Some state) ''edges'' of
                    Inl e \<Rightarrow> (Inl e, [])
                  | Inr None \<Rightarrow> (Inl InvalidFunnelFormat, [])
                  | Inr (Some es) \<Rightarrow>
                      if \<not> truthy (Some es) then (Inl InvalidFunnelFormat, [])
                      else
                        (let writes = [SetNodes ns, SetEdges es, SetHistory [(ns, es)],
                                       SetCurrentIndex 0]
                         in case forEachNode ns of
                              Inl e \<Rightarrow> (Inl e, writes)
                            | Inr counts \<Rightarrow> (Inr True, writes @ [SetLabelCounts counts])))))"

text \<open>
  \<^verbatim>\<open>importFunnel\<close>: the \<^verbatim>\<open>catch\<close> clause turns every error into \<^verbatim>\<open>false\<close>; the
  setters already called stay called.
\<close>

definition importFunnel :: "json option \<Rightarrow> bool \<times> stateWrite list" where
  "importFunnel parsed =
     (case importFunnelBody parsed of
        (Inl e, writes) \<Rightarrow> (False, writes)
      | (Inr b, writes) \<Rightarrow> (b, writes))"

text \<open>
  The JSON value of a funnel state, as \<^verbatim>\<open>JSON.stringify\<close> writes it for
  \<^verbatim>\<open>exportFunnel\<close> and for the storage: absent fields are left out.
\<close>

definition encodeData :: "FunnelNodeData \<Rightarrow> json" where
  "encodeData d =
     JObject ([(''label'', JString (label d)), (''nodeType'', JString (nodeTypeName (nodeType d))),
               (''buttonLabel'', JString (buttonLabel d))] @
              (case hasWarning d of None \<Rightarrow> [] | Some b \<Rightarrow> [(''hasWarning'', JBool b)]) @
              (case warningMessage d of None \<Rightarrow> [] | Some t \<Rightarrow> [(''warningMessage'', JString t)]))"

definition encodeNode :: "FunnelNode \<Rightarrow> json" where
  "encodeNode n =
     JObject [(''id'', JString (node_id n)), (''type'', JString ''funnelNode''),
              (''position'', JObject [(''x'', JNumber (fst (position n))),
                                      (''y'', JNumber (snd (position n)))]),
              (''data'', encodeData (data n))]"

definition encodeEdge :: "FunnelEdge \<Rightarrow> json" where
  "encodeEdge e =
     JObject ([(''id'', JString (edge_id e)), (''source'', JString (source e)),
               (''target'', JString (target e))] @
              (case sourceHandle e of None \<Rightarrow> [] | Some h \<Rightarrow> [(''sourceHandle'', JString h)]) @
              (case targetHandle e of None \<Rightarrow> [] | Some h \<Rightarrow> [(''targetHandle'', JString h)]) @
              [(''animated'', JBool (animated e))])"

definition encodeState :: "FunnelState \<Rightarrow> json" where
  "encodeState st =
     JObject [(''nodes'', JArray (map encodeNode (nodes st))),
              (''edges'', JArray (map encodeEdge (edges st)))]"

definition exportFunnel :: "funnelStore \<Rightarrow> json" where
  "exportFunnel s = encodeState (snapshotOf s)"

section \<open>Validation\<close>

lemma count_list_map_filter: "count_list (map f xs) v = length (filter (\<lambda>e. f e = v) xs)"
  by (induction xs) auto

lemma computeWarning_spec: "computeWarning es n = specWarning es n"
  by (simp add: computeWarning_def specWarning_def outgoingCount_def incomingCount_def
      count_list_map_filter Let_def)

lemma validatedNode_withWarning: "validatedNode es n = withWarning (computeWarning es n) n"
  by (cases "computeWarning es n")
     (auto simp: validatedNode_def validateNode_def withWarning_def)

lemma computeWarning_withWarning [simp]:
  "computeWarning es (withWarning w n) = computeWarning es n"
  by (simp add: computeWarning_def withWarning_def Let_def)

lemma withWarning_idem [simp]: "withWarning w (withWarning w' n) = withWarning w n"
  by (simp add: withWarning_def)

lemma validateNode_None_iff:
  "validateNode es n = None \<longleftrightarrow>
     hasWarning (data n) = Some (fst (computeWarning es n)) \<and>
     warningMessage (data n) = Some (snd (computeWarning es n))"
  by (cases "computeWarning es n") (auto simp: validateNode_def)

lemma validateNode_validated: "validateNode es (validatedNode es n) = None"
  by (simp add: validateNode_None_iff validatedNode_withWarning) (simp add: withWarning_def)

lemma validationPass_idem: "validationPass es (validationPass es nds) = validationPass es nds"
  by (simp add: validationPass_def validatedNode_withWarning)

lemma validationPass_length [simp]: "length (validationPass es nds) = length nds"
  by (simp add: validationPass_def)

lemma validation_no_history:
  "\<not> isInitialLoadRef s \<Longrightarrow>
     history (runEffects True False False (validationEffect s)) = history s \<and>
     currentIndex (runEffects True False False (validationEffect s)) = currentIndex s"
  by (simp add: runEffects_def validationEffect_def saveHistoryEffect_def syncIndexRef_def Let_def)

section \<open>Commits\<close>

lemmas effect_defs = commit_def runEffects_def saveHistoryEffect_def validationEffect_def
  syncIndexRef_def pushHistory_def snapshotOf_def Let_def

lemma commit_quiet_edges:
  assumes "quiet q"
  shows "edges (commit nc ec False q) = edges q"
  using assms by (simp add: effect_defs quiet_def)

lemma commit_quiet_nodes:
  assumes "quiet q"
  shows "nodes (commit nc ec False q) = (if ec then validationPass (edges q) (nodes q) else nodes q)"
  using assms by (simp add: effect_defs quiet_def)

lemma commit_quiet_history:
  assumes "quiet q"
  shows "history (commit nc ec False q) =
     (if nc \<or> ec then pushed (history q) (currentIndex q) (snapshotOf q) else history q)"
  using assms by (simp add: effect_defs quiet_def pushed_def)

lemma slice0_length: "length (slice0 h e) \<le> length h"
  by (simp add: slice0_def Let_def)

lemma commit_quiet_index:
  assumes "quiet q" "length (history q) \<le> MAX_HISTORY_SIZE"
  shows "currentIndex (commit nc ec False q) =
     (if nc \<or> ec then int (length (pushed (history q) (currentIndex q) (snapshotOf q))) - 1
      else currentIndex q)"
  using assms slice0_length [of "history q" "currentIndex q + 1"]
  by (auto simp add: effect_defs quiet_def pushed_def MAX_HISTORY_SIZE_def)

lemma commit_quiet_settled:
  assumes "quiet q"
  shows "settled (commit nc ec False q)"
  using assms by (simp add: effect_defs quiet_def settled_def)


lemma commit_quiet_labelCounts:
  shows "labelCounts (commit nc ec ic q) = labelCounts q"
  by (simp add: effect_defs)

lemma pushed_length: "length h \<le> MAX_HISTORY_SIZE \<Longrightarrow> length (pushed h i st) \<le> MAX_HISTORY_SIZE \<and> pushed h i st \<noteq> [] \<and> last (pushed h i st) = st"
proof -
  let ?xs = "slice0 h (i + 1)"
  assume "length h \<le> MAX_HISTORY_SIZE"
  then have le: "length ?xs \<le> MAX_HISTORY_SIZE"
    using slice0_length [of h "i + 1"] by simp
  show ?thesis
  proof (cases "length (?xs @ [st]) > MAX_HISTORY_SIZE")
    case True
    then have ne: "?xs \<noteq> []" by (auto simp: MAX_HISTORY_SIZE_def)
    then have "tl (?xs @ [st]) = tl ?xs @ [st]" by simp
    with True le show ?thesis by (auto simp add: pushed_def Let_def MAX_HISTORY_SIZE_def)
  next
    case False
    then show ?thesis by (simp add: pushed_def Let_def)
  qed
qed

section \<open>Invariant of the store\<close>

lemma initialize_quiet: "settled (initialize item) \<and> historyOk (initialize item)"
  by (cases item)
     (simp_all add: initialize_def mountStore_def loadEffect_def effect_defs settled_def quiet_def
       historyOk_def MAX_HISTORY_SIZE_def)

lemma initialize_inv: "storeInv (initialize item)"
  by (cases item)
     (simp_all add: initialize_def mountStore_def loadEffect_def effect_defs settled_def quiet_def
       historyOk_def MAX_HISTORY_SIZE_def storeInv_def topRecorded_def validationPass_idem)

lemma commit_inv:
  assumes "quiet q" "length (history q) \<le> MAX_HISTORY_SIZE" "nc \<or> ec"
  shows "storeInv (commit nc ec False q)"
proof -
  let ?c = "commit nc ec False q"
  let ?p = "pushed (history q) (currentIndex q) (snapshotOf q)"
  have p: "length ?p \<le> MAX_HISTORY_SIZE" "?p \<noteq> []" "last ?p = snapshotOf q"
    using pushed_length [OF assms(2)] by auto
  have h: "history ?c = ?p" using assms by (simp add: commit_quiet_history)
  have i: "currentIndex ?c = int (length ?p) - 1" using assms by (simp add: commit_quiet_index)
  have e: "edges ?c = edges q" using assms by (simp add: commit_quiet_edges)
  have n: "validationPass (edges q) (nodes ?c) = validationPass (edges q) (nodes q)"
    using assms by (simp add: commit_quiet_nodes validationPass_idem)
  have "length ?p > 0" using p(2) by simp
  then have "historyOk ?c" using p h i by (simp add: historyOk_def)
  moreover have "topRecorded ?c" using p h e n by (simp add: topRecorded_def snapshotOf_def)
  ultimately show ?thesis
    using commit_quiet_settled [OF assms(1)] i h by (simp add: storeInv_def)
qed

lemma applyMutation_inv:
  assumes "storeInv s" "\<not> isDrag m"
  shows "storeInv (applyMutation m s)"
proof -
  have q: "quiet s" and l: "length (history s) \<le> MAX_HISTORY_SIZE"
    using assms(1) by (simp_all add: storeInv_def settled_def historyOk_def)
  show ?thesis
  proof (cases m)
    case (OnNodesChange hp app)
    with assms(2) have "\<not> hp" by simp
    with OnNodesChange q l show ?thesis
      by (simp add: onNodesChange_def) (rule commit_inv, simp_all add: quiet_def)
  next
    case (OnEdgesChange app)
    with q l show ?thesis
      by (simp add: onEdgesChange_def) (rule commit_inv, simp_all add: quiet_def)
  next
    case (OnConnect c)
    show ?thesis
    proof (cases "onConnect c s = s")
      case True
      with OnConnect assms(1) show ?thesis by simp
    next
      case False
      then have "onConnect c s = commit False True False (s\<lparr>edges := addEdge c True (edges s)\<rparr>)"
        by (auto simp: onConnect_def Let_def split: if_splits option.splits)
      with OnConnect q l show ?thesis
        by simp (rule commit_inv, simp_all add: quiet_def)
    qed
  next
    case (AddNode k pos now)
    with q l show ?thesis
      by (simp add: addNode_def Let_def) (rule commit_inv, simp_all add: quiet_def)
  next
    case (DeleteNode i)
    with q l show ?thesis
      by (simp add: deleteNode_def) (rule commit_inv, simp_all add: quiet_def)
  next
    case (DeleteEdge i)
    with q l show ?thesis
      by (simp add: deleteEdge_def) (rule commit_inv, simp_all add: quiet_def)
  next
    case (ImportFunnel st)
    with q show ?thesis
      by (simp add: importState_def) (rule commit_inv, simp_all add: quiet_def MAX_HISTORY_SIZE_def)
  next
    case ClearFunnel
    with q show ?thesis
      by (simp add: clearFunnel_def) (rule commit_inv, simp_all add: quiet_def MAX_HISTORY_SIZE_def)
  qed
qed

lemma applyMutations_inv:
  assumes "storeInv s" "\<forall>m \<in> set ms. \<not> isDrag m"
  shows "storeInv (applyMutations ms s)"
  using assms unfolding applyMutations_def
  by (induction ms arbitrary: s) (simp_all add: applyMutation_inv)

section \<open>Properties of the validation pass\<close>

text \<open>
  C5. The validation pass returns the nodes it was given with nothing changed but the two
  warning fields, and sets these as the rules say: a sales page with no outgoing edge is
  warned to connect to an order page, one with more than one outgoing edge is warned to
  have only one outgoing connection, one with exactly one outgoing edge has no warning;
  any other node with no incoming edge is warned that it is not connected to the funnel,
  and every remaining node has no warning.
\<close>

theorem validation_rules:
  "validationPass es nds = map (\<lambda>n. withWarning (specWarning es n) n) nds"
  by (simp add: validationPass_def validatedNode_withWarning computeWarning_spec)

text \<open>
  C6. A second validation pass over the same edges gives the nodes of the first pass
  again and returns every one of them as the same object; in general a node is returned
  as the same object exactly when its stored warning fields already equal the computed
  ones. Once the initial load is over, a validation run followed by the render it causes
  leaves the history and the current index as they were.
\<close>

theorem validation_idempotent:
  "validationPass es (validationPass es nds) = validationPass es nds \<and>
   (\<forall>n \<in> set (validationPass es nds). validateNode es n = None) \<and>
   (validateNode es n = None \<longleftrightarrow>
      hasWarning (data n) = Some (fst (computeWarning es n)) \<and>
      warningMessage (data n) = Some (snd (computeWarning es n))) \<and>
   (\<not> isInitialLoadRef s \<longrightarrow>
      history (runEffects True False False (validationEffect s)) = history s \<and>
      currentIndex (runEffects True False False (validationEffect s)) = currentIndex s)"
proof -
  have "\<forall>n \<in> set (validationPass es nds). validateNode es n = None"
    by (auto simp: validationPass_def validateNode_validated)
  then show ?thesis
    using validationPass_idem [of es nds] validateNode_None_iff [of es n]
      validation_no_history [of s]
    by blast
qed

theorem validation_rules_witness:
  "map (\<lambda>n. hasWarning (data n)) (validationPass [] initialNodes) = [Some True, Some True, Some True] \<and>
   map (\<lambda>n. warningMessage (data n)) (validationPass initialEdges initialNodes) = [Some [], Some [], Some []]"
  using validation_rules [of "[]" initialNodes] validation_rules [of initialEdges initialNodes]
  by (simp add: initialNodes_def initialEdges_def specWarning_def withWarning_def
      outgoingCount_def incomingCount_def)

theorem validation_idempotent_witness:
  "\<not> isInitialLoadRef (initialize Absent) \<and>
   history (runEffects True False False (validationEffect (initialize Absent))) =
     history (initialize Absent) \<and>
   validationPass initialEdges (validationPass initialEdges initialNodes) =
     validationPass initialEdges initialNodes \<and>
   map (validateNode initialEdges) (validationPass initialEdges initialNodes) = [None, None, None]"
proof -
  have h: "\<not> isInitialLoadRef (initialize Absent)"
    using initialize_quiet [of Absent] by (simp add: settled_def quiet_def)
  have m: "map (validateNode initialEdges) (validationPass initialEdges initialNodes) =
             [None, None, None]"
    by (simp add: validationPass_def validatedNode_def validateNode_def computeWarning_def
        initialNodes_def initialEdges_def)
  show ?thesis
    using h m validation_idempotent [of initialEdges initialNodes "hd initialNodes" "initialize Absent"]
    by blast
qed

section \<open>The bound on the history\<close>

lemma slice0_all [simp]: "slice0 h (int (length h)) = h"
  by (simp add: slice0_def Let_def)

lemma pushed_top:
  "pushed h (int (length h) - 1) st =
     (if length h \<ge> MAX_HISTORY_SIZE then tl (h @ [st]) else h @ [st])"
  by (auto simp: pushed_def Let_def)

lemma applyMutation_pushes:
  assumes "storeInv s" "\<not> isDrag m" "\<forall>st. m \<noteq> ImportFunnel st" "m \<noteq> ClearFunnel"
    "applyMutation m s \<noteq> s"
  shows "\<exists>st. history (applyMutation m s) = pushed (history s) (currentIndex s) st"
proof -
  have q: "quiet s"
    using assms(1) by (simp_all add: storeInv_def settled_def)
  show ?thesis
  proof (cases m)
    case (OnNodesChange hp app)
    with assms(2) have "\<not> hp" by simp
    with OnNodesChange q show ?thesis
      by (simp add: onNodesChange_def commit_quiet_history quiet_def) blast
  next
    case (OnEdgesChange app)
    with q show ?thesis
      by (simp add: onEdgesChange_def commit_quiet_history quiet_def) blast
  next
    case (OnConnect c)
    with assms(5) have "onConnect c s = commit False True False (s\<lparr>edges := addEdge c True (edges s)\<rparr>)"
      by (auto simp: onConnect_def Let_def split: if_splits option.splits)
    with OnConnect q show ?thesis
      by (simp add: commit_quiet_history quiet_def) blast
  next
    case (AddNode k pos now)
    with q show ?thesis
      by (simp add: addNode_def Let_def commit_quiet_history quiet_def) blast
  next
    case (DeleteNode i)
    with q show ?thesis
      by (simp add: deleteNode_def commit_quiet_history quiet_def) blast
  next
    case (DeleteEdge i)
    with q show ?thesis
      by (simp add: deleteEdge_def commit_quiet_history quiet_def) blast
  next
    case (ImportFunnel st)
    with assms(3) show ?thesis by simp
  next
    case ClearFunnel
    with assms(4) show ?thesis by simp
  qed
qed

text \<open>
  C2. After initialisation and any sequence of non-drag mutations the history holds at
  most 50 entries and the current index points at its last entry. A further mutation
  that records a snapshot (it changes the store, and is not an import or a clear, which
  replace the history) appends its entry to the history as it was; when the history is
  full the oldest entry is dropped first and the current index stays at 49.
\<close>

theorem history_bound:
  assumes "\<forall>m \<in> set ms. \<not> isDrag m"
  shows "let s = applyMutations ms (initialize item) in
           length (history s) \<le> 50 \<and>
           currentIndex s = int (length (history s)) - 1 \<and>
           (\<forall>m. \<not> isDrag m \<and> (\<forall>st. m \<noteq> ImportFunnel st) \<and> m \<noteq> ClearFunnel \<and>
                 applyMutation m s \<noteq> s \<longrightarrow>
              (length (history s) < 50 \<longrightarrow> butlast (history (applyMutation m s)) = history s) \<and>
              (length (history s) = 50 \<longrightarrow>
                 butlast (history (applyMutation m s)) = tl (history s) \<and>
                 currentIndex (applyMutation m s) = 49))"
proof -
  let ?s = "applyMutations ms (initialize item)"
  have inv: "storeInv ?s"
    using assms initialize_inv applyMutations_inv by blast
  then have a: "length (history ?s) \<le> 50" and b: "currentIndex ?s = int (length (history ?s)) - 1"
    by (simp_all add: storeInv_def historyOk_def MAX_HISTORY_SIZE_def)
  have c: "(length (history ?s) < 50 \<longrightarrow> butlast (history (applyMutation m ?s)) = history ?s) \<and>
           (length (history ?s) = 50 \<longrightarrow>
              butlast (history (applyMutation m ?s)) = tl (history ?s) \<and>
              currentIndex (applyMutation m ?s) = 49)"
    if m: "\<not> isDrag m" "\<forall>st. m \<noteq> ImportFunnel st" "m \<noteq> ClearFunnel" "applyMutation m ?s \<noteq> ?s"
    for m
  proof -
    obtain st where h: "history (applyMutation m ?s) = pushed (history ?s) (int (length (history ?s)) - 1) st"
      using applyMutation_pushes [OF inv m] b by auto
    have inv': "storeInv (applyMutation m ?s)" using inv m(1) by (rule applyMutation_inv)
    then have i': "currentIndex (applyMutation m ?s) = int (length (history (applyMutation m ?s))) - 1"
      by (simp add: storeInv_def)
    have ne: "length (history ?s) = 50 \<Longrightarrow> history ?s \<noteq> []" by auto
    show ?thesis
      using h i' ne by (auto simp: pushed_top MAX_HISTORY_SIZE_def butlast_append)
  qed
  show ?thesis
    unfolding Let_def using a b c by blast
qed


lemmas store_defs = initialize_def mountStore_def loadEffect_def effect_defs applyMutations_def
  addNode_def deleteEdge_def deleteNode_def clearFunnel_def importState_def onConnect_def undo_def
  redo_def nthOpt_def slice0_def MAX_HISTORY_SIZE_def createLabelCounter_def

lemma run_example_history: "length (history (applyMutations [AddNode upsell (0, 0) 5] (initialize Absent))) = 2"
  by (simp add: store_defs)

lemma run_example_nodes: "length (nodes (applyMutations [AddNode upsell (0, 0) 5] (initialize Absent))) = 4"
  by (simp add: store_defs initialNodes_def validationPass_def)

lemma run_example_nodes_next: "length (nodes (applyMutation (AddNode orderPage (1, 1) 6) (applyMutations [AddNode upsell (0, 0) 5] (initialize Absent)))) = 5"
  by (simp add: store_defs initialNodes_def validationPass_def)

theorem history_bound_witness:
  "\<not> isDrag (AddNode upsell (0, 0) 5) \<and>
   (let s = applyMutations [AddNode upsell (0, 0) 5] (initialize Absent) in
      length (history s) \<le> 50 \<and> currentIndex s = int (length (history s)) - 1 \<and>
      length (history s) < 50 \<and> applyMutation (AddNode orderPage (1, 1) 6) s \<noteq> s \<and>
      butlast (history (applyMutation (AddNode orderPage (1, 1) 6) s)) = history s)"
proof -
  let ?s = "applyMutations [AddNode upsell (0, 0) 5] (initialize Absent)"
  let ?m = "AddNode orderPage (1, 1) 6"
  have h: "\<forall>m \<in> set [AddNode upsell (0, 0) 5]. \<not> isDrag m" by simp
  have l: "length (history ?s) < 50" by (simp add: run_example_history)
  have "length (nodes (applyMutation ?m ?s)) \<noteq> length (nodes ?s)" by (simp only: run_example_nodes run_example_nodes_next)
  then have ne: "applyMutation ?m ?s \<noteq> ?s" by auto
  have d: "\<not> isDrag ?m \<and> (\<forall>st. ?m \<noteq> ImportFunnel st) \<and> ?m \<noteq> ClearFunnel" by simp
  have h0: "\<not> isDrag (AddNode upsell (0, 0) 5)" by simp
  show ?thesis
    using history_bound [OF h, of Absent] h0 l ne d unfolding Let_def by blast
qed

section \<open>Undo and redo after an added node\<close>

lemma example_addNode_index:
  "currentIndex (applyMutations [AddNode upsell (0, 0) 5] (initialize Absent)) = 1"
  by (simp add: store_defs)




section \<open>Resetting the history\<close>

lemma pushed_single: "pushed [st] 0 st' = [st, st']"
  by (simp add: pushed_def slice0_def Let_def MAX_HISTORY_SIZE_def)

lemma snapshotOf_import:
  "snapshotOf (s\<lparr>nodes := nodes st, edges := edges st, history := h, currentIndex := i,
                 labelCounts := c\<rparr>) = st"
  by (simp add: snapshotOf_def)

text \<open>
  C3 (what the code does). On a store with no skip flag pending, \<^verbatim>\<open>clearFunnel\<close> and
  a successful \<^verbatim>\<open>importFunnel\<close> set the history to a single entry with index 0, but
  the render they cause runs the history effect, which records the same state once more:
  the history ends with two equal entries, the current index is 1 and undo is enabled.
\<close>

theorem reset_then_snapshot:
  assumes "quiet s"
  shows "history (clearFunnel s) = [\<lparr>nodes = [], edges = []\<rparr>, \<lparr>nodes = [], edges = []\<rparr>] \<and>
         currentIndex (clearFunnel s) = 1 \<and> canUndo (clearFunnel s) \<and>
         history (importState st s) = [st, st] \<and>
         currentIndex (importState st s) = 1 \<and> canUndo (importState st s)"
proof -
  let ?qc = "s\<lparr>nodes := [], edges := [], labelCounts := createLabelCounter,
               history := [\<lparr>nodes = [], edges = []\<rparr>], currentIndex := 0\<rparr>"
  let ?qi = "s\<lparr>nodes := nodes st, edges := edges st, history := [st], currentIndex := 0,
               labelCounts := reconstructOnImport (nodes st)\<rparr>"
  have qc: "quiet ?qc" and qi: "quiet ?qi" using assms by (simp_all add: quiet_def)
  have lc: "length (history ?qc) \<le> MAX_HISTORY_SIZE" and li: "length (history ?qi) \<le> MAX_HISTORY_SIZE"
    by (simp_all add: MAX_HISTORY_SIZE_def)
  have hc: "history (clearFunnel s) = [\<lparr>nodes = [], edges = []\<rparr>, \<lparr>nodes = [], edges = []\<rparr>]"
    unfolding clearFunnel_def using commit_quiet_history [OF qc, of True True]
    by (simp add: pushed_single snapshotOf_def)
  have ic: "currentIndex (clearFunnel s) = 1"
    unfolding clearFunnel_def using commit_quiet_index [OF qc lc, of True True]
    by (simp add: pushed_single)
  have hi: "history (importState st s) = [st, st]"
    unfolding importState_def using commit_quiet_history [OF qi, of True True]
    by (simp add: pushed_single snapshotOf_import)
  have ii: "currentIndex (importState st s) = 1"
    unfolding importState_def using commit_quiet_index [OF qi li, of True True]
    by (simp add: pushed_single)
  show ?thesis using hc ic hi ii by (simp add: canUndo_def)
qed

theorem reset_then_snapshot_witness:
  "quiet (initialize Absent) \<and>
   length (history (clearFunnel (initialize Absent))) = 2 \<and>
   canUndo (clearFunnel (initialize Absent)) \<and>
   length (history (importState \<lparr>nodes = [], edges = []\<rparr> (initialize Absent))) = 2 \<and>
   canUndo (importState \<lparr>nodes = [], edges = []\<rparr> (initialize Absent))"
proof -
  have q: "quiet (initialize Absent)"
    using initialize_quiet [of Absent] by (simp add: settled_def)
  show ?thesis
    using q reset_then_snapshot [OF q, of "\<lparr>nodes = [], edges = []\<rparr>"] by simp
qed

section \<open>Connecting nodes\<close>

lemma find_distinct:
  assumes "distinct (map f xs)" "n \<in> set xs"
  shows "find (\<lambda>m. f m = f n) xs = Some n"
  using assms by (induction xs) (auto simp: image_iff)


lemma thankYou_source_unique_ids:
  assumes "distinct (map node_id (nodes s))" "n \<in> set (nodes s)"
    "node_id n = conn_source connection" "nodeType (data n) = thankYou"
  shows "onConnect connection s = s"
proof -
  have "find (\<lambda>m. node_id m = conn_source connection) (nodes s) = Some n"
    using find_distinct [OF assms(1,2)] assms(3) by simp
  then show ?thesis using assms(4) by (simp add: onConnect_def)
qed

lemma node_id_validatedNode [simp]: "node_id (validatedNode es n) = node_id n"
  by (simp add: validatedNode_withWarning withWarning_def)

lemma nodeType_validatedNode [simp]: "nodeType (data (validatedNode es n)) = nodeType (data n)"
  by (simp add: validatedNode_withWarning withWarning_def)

lemma initialize_Absent_nodes: "nodes (initialize Absent) = validationPass initialEdges initialNodes"
  by (simp add: store_defs)

lemma initialize_Absent_edges: "edges (initialize Absent) = initialEdges"
  by (simp add: store_defs)


lemma commit_edges [simp]: "edges (commit nc ec ic q) = edges q"
  by (simp add: effect_defs)

text \<open>
  C10 (as stated, refuted). In the initial funnel no node has the id \<^verbatim>\<open>ghost\<close>, yet
  connecting from \<^verbatim>\<open>ghost\<close> changes the edge collection.
\<close>

theorem connect_unchecked_counterexample:
  "''ghost'' \<notin> set (map node_id (nodes (initialize Absent))) \<and>
   edges (onConnect \<lparr>conn_source = ''ghost'', conn_target = ''order-1'',
                     conn_sourceHandle = None, conn_targetHandle = None\<rparr> (initialize Absent))
     \<noteq> edges (initialize Absent)"
  by (simp add: initialize_Absent_nodes validationPass_def initialNodes_def onConnect_def
      initialize_Absent_edges initialEdges_def addEdge_def connectionExists_def Let_def)

text \<open>
  C10 (amended). \<^verbatim>\<open>connect\<close> does not check its end points against the node
  collection. It leaves the edges unchanged exactly when the first node carrying the source
  id is a thank-you node, when the source or the target is empty, or when an edge between
  the same end points and handles exists already; in every other case, also when no node
  has the source or the target id, it appends one animated edge from the connection's
  source to its target.
\<close>

theorem connect_adds_edge:
  "edges (onConnect c s) =
     (if (\<exists>n. find (\<lambda>n. node_id n = conn_source c) (nodes s) = Some n \<and> nodeType (data n) = thankYou) \<or>
         conn_source c = [] \<or> conn_target c = [] \<or>
         list_ex (\<lambda>el. source el = conn_source c \<and> target el = conn_target c \<and>
                    (sourceHandle el = conn_sourceHandle c \<or>
                     (handleOrEmpty (sourceHandle el) = [] \<and> handleOrEmpty (conn_sourceHandle c) = [])) \<and>
                    (targetHandle el = conn_targetHandle c \<or>
                     (handleOrEmpty (targetHandle el) = [] \<and> handleOrEmpty (conn_targetHandle c) = [])))
           (edges s)
      then edges s
      else edges s @ [\<lparr>edge_id = getEdgeId c, source = conn_source c, target = conn_target c,
                        sourceHandle = conn_sourceHandle c, targetHandle = conn_targetHandle c,
                        animated = True\<rparr>])"
  by (auto simp: onConnect_def addEdge_def connectionExists_def Let_def split: option.splits)

theorem connect_adds_edge_witness:
  "edges (onConnect \<lparr>conn_source = ''ghost'', conn_target = ''order-1'',
                     conn_sourceHandle = None, conn_targetHandle = None\<rparr> (initialize Absent))
     = initialEdges @ [\<lparr>edge_id = ''xy-edge__ghost-order-1'', source = ''ghost'', target = ''order-1'',
                        sourceHandle = None, targetHandle = None, animated = True\<rparr>]"
  using connect_adds_edge [of "\<lparr>conn_source = ''ghost'', conn_target = ''order-1'',
                     conn_sourceHandle = None, conn_targetHandle = None\<rparr>" "initialize Absent"]
  by (simp add: initialize_Absent_nodes validationPass_def initialNodes_def
      initialize_Absent_edges initialEdges_def getEdgeId_def handleOrEmpty_def)




section \<open>The order of effects\<close>

lemma commit_effect_order:
  "isInitialized q \<Longrightarrow>
   commit nc True False q =
     syncIndexRef (saveHistoryEffect (syncIndexRef (validationEffect (saveHistoryEffect (syncIndexRef q)))))"
  by (simp add: commit_def runEffects_def Let_def)







section \<open>Import and label counters\<close>

lemma countsKey_nodeTypeName [simp]: "countsKey (JString (nodeTypeName k)) = Some k"
  by (cases k) (simp_all add: kindOfName_def)

lemma importLabelStep_encode:
  "importLabelStep counts (encodeNode n) = Inr (importCountStep counts n)"
  by (simp add: importLabelStep_def encodeNode_def encodeData_def getProperty_def
      importCountStep_def del: countsKey.simps(1) split: option.splits)

lemma importLabelCounts_encode:
  "importLabelCounts counts (map encodeNode ns) = Inr (foldl importCountStep counts ns)"
  by (induction ns arbitrary: counts) (simp_all add: importLabelStep_encode)

lemma importFunnel_encode:
  "importFunnel (Some (encodeState st)) =
     (True, [SetNodes (JArray (map encodeNode (nodes st))),
             SetEdges (JArray (map encodeEdge (edges st))),
             SetHistory [(JArray (map encodeNode (nodes st)), JArray (map encodeEdge (edges st)))],
             SetCurrentIndex 0,
             SetLabelCounts (reconstructOnImport (nodes st))])"
  by (simp add: importFunnel_def importFunnelBody_def encodeState_def getProperty_def truthy_def
      forEachNode_def importLabelCounts_encode reconstructOnImport_def)

lemma importFunnel_rejects:
  "importFunnel None = (False, [])"
  "getProperty (Some state) ''nodes'' = Inr ns \<Longrightarrow> \<not> truthy ns \<Longrightarrow>
     importFunnel (Some state) = (False, [])"
  "getProperty (Some state) ''edges'' = Inr es \<Longrightarrow> \<not> truthy es \<Longrightarrow>
     importFunnel (Some state) = (False, [])"
  by (auto simp: importFunnel_def importFunnelBody_def truthy_def getProperty_def
      split: option.splits sum.splits json.splits)


lemma loadCountStep_mono: "counts k \<le> loadCountStep counts n k"
  by (simp add: loadCountStep_def split: option.splits)

lemma importCountStep_mono: "counts k \<le> importCountStep counts n k"
  by (simp add: importCountStep_def split: option.splits)

lemma foldl_loadCountStep_mono: "counts k \<le> foldl loadCountStep counts ns k"
proof (induction ns arbitrary: counts)
  case Nil
  show ?case by simp
next
  case (Cons n ns)
  have "counts k \<le> loadCountStep counts n k" by (rule loadCountStep_mono)
  also have "\<dots> \<le> foldl loadCountStep (loadCountStep counts n) ns k" by (rule Cons.IH)
  finally show ?case by simp
qed

lemma foldl_importCountStep_mono: "counts k \<le> foldl importCountStep counts ns k"
proof (induction ns arbitrary: counts)
  case Nil
  show ?case by simp
next
  case (Cons n ns)
  have "counts k \<le> importCountStep counts n k" by (rule importCountStep_mono)
  also have "\<dots> \<le> foldl importCountStep (importCountStep counts n) ns k" by (rule Cons.IH)
  finally show ?case by simp
qed

lemma foldl_loadCountStep_bound:
  assumes "n \<in> set ns" "matchTrailingInt (label (data n)) = Some v"
  shows "v \<le> foldl loadCountStep counts ns (nodeType (data n))"
  using assms
proof (induction ns arbitrary: counts)
  case Nil
  then show ?case by simp
next
  case (Cons m ns)
  show ?case
  proof (cases "m = n")
    case True
    have "v \<le> loadCountStep counts n (nodeType (data n))"
      using Cons.prems(2) by (simp add: loadCountStep_def)
    also have "\<dots> \<le> foldl loadCountStep (loadCountStep counts n) ns (nodeType (data n))"
      by (rule foldl_loadCountStep_mono)
    finally show ?thesis using True by simp
  next
    case False
    with Cons show ?thesis by simp
  qed
qed

lemma foldl_importCountStep_bound:
  assumes "n \<in> set ns" "matchTrailingInt (label (data n)) = Some v"
  shows "v \<le> foldl importCountStep counts ns (nodeType (data n))"
  using assms
proof (induction ns arbitrary: counts)
  case Nil
  then show ?case by simp
next
  case (Cons m ns)
  show ?case
  proof (cases "m = n")
    case True
    have "v \<le> importCountStep counts n (nodeType (data n))"
      using Cons.prems(2) by (simp add: importCountStep_def)
    also have "\<dots> \<le> foldl importCountStep (importCountStep counts n) ns (nodeType (data n))"
      by (rule foldl_importCountStep_mono)
    finally show ?thesis using True by simp
  next
    case False
    with Cons show ?thesis by simp
  qed
qed

lemma digitValue_digitChar: "d < 10 \<Longrightarrow> digitValue (digitChar d) = d"
  by (simp add: digitValue_def digitChar_def)

lemma isDigit_digitChar: "d < 10 \<Longrightarrow> isDigit (digitChar d)"
  by (simp add: isDigit_def digitChar_def)

lemma parseInt10_snoc: "parseInt10 (ds @ [c]) = 10 * parseInt10 ds + digitValue c"
  by (simp add: parseInt10_def)

lemma showNat_props:
  "showNat n \<noteq> [] \<and> (\<forall>c \<in> set (showNat n). isDigit c) \<and> parseInt10 (showNat n) = n"
proof (induction n rule: showNat.induct)
  case (1 n)
  show ?case
  proof (cases "n < 10")
    case True
    then show ?thesis
      by (subst (1 2 3) showNat.simps)
         (simp add: isDigit_digitChar parseInt10_def digitValue_digitChar)
  next
    case False
    with 1 have ih: "showNat (n div 10) \<noteq> []" "\<forall>c \<in> set (showNat (n div 10)). isDigit c"
      "parseInt10 (showNat (n div 10)) = n div 10" by simp_all
    have s: "showNat n = showNat (n div 10) @ [digitChar (n mod 10)]"
      using False by (subst showNat.simps) simp
    show ?thesis
      using ih by (simp add: s parseInt10_snoc isDigit_digitChar digitValue_digitChar)
  qed
qed

lemma matchTrailingInt_allocated: "matchTrailingInt (l @ '' '' @ showNat c) = Some c"
proof -
  have d: "\<forall>ch \<in> set (rev (showNat c)). isDigit ch" using showNat_props [of c] by simp
  have "takeWhile isDigit (rev (l @ '' '' @ showNat c)) = rev (showNat c)"
    using d by (simp add: takeWhile_append isDigit_def)
  then show ?thesis using showNat_props [of c] by (simp add: matchTrailingInt_def)
qed

lemma createLabelCounter_ge_1: "k \<noteq> upsell \<Longrightarrow> k \<noteq> downsell \<Longrightarrow> 1 \<le> createLabelCounter k"
  by (cases k) (simp_all add: createLabelCounter_def)

lemma allocate_fresh:
  assumes bound: "\<And>v. matchTrailingInt (label (data n)) = Some v \<Longrightarrow> v \<le> counts (nodeType (data n))"
    and init: "createLabelCounter (nodeType (data n)) \<le> counts (nodeType (data n))"
  shows "label (data n) \<noteq> allocateLabel (nodeType (data n)) (counts (nodeType (data n)) + 1)"
proof
  let ?k = "nodeType (data n)"
  let ?c = "counts ?k"
  assume eq: "label (data n) = allocateLabel ?k (?c + 1)"
  have "?k = upsell \<or> ?k = downsell \<or> ?c + 1 > 1"
    using init createLabelCounter_ge_1 [of ?k] by (cases "?k = upsell \<or> ?k = downsell") auto
  then have "allocateLabel ?k (?c + 1) = config_label ?k @ '' '' @ showNat (?c + 1)"
    unfolding allocateLabel_def by presburger
  then have "matchTrailingInt (label (data n)) = Some (?c + 1)"
    using eq by (simp only: matchTrailingInt_allocated)
  from bound [OF this] show False by simp
qed

lemma reconstruct_fresh:
  assumes "n \<in> set ns"
  shows "label (data n) \<noteq>
           allocateLabel (nodeType (data n)) (reconstructOnLoad ns (nodeType (data n)) + 1)"
    and "label (data n) \<noteq>
           allocateLabel (nodeType (data n)) (reconstructOnImport ns (nodeType (data n)) + 1)"
proof -
  show "label (data n) \<noteq>
           allocateLabel (nodeType (data n)) (reconstructOnLoad ns (nodeType (data n)) + 1)"
    unfolding reconstructOnLoad_def
    by (rule allocate_fresh) (simp_all add: foldl_loadCountStep_bound [OF assms] foldl_loadCountStep_mono)
  show "label (data n) \<noteq>
           allocateLabel (nodeType (data n)) (reconstructOnImport ns (nodeType (data n)) + 1)"
    unfolding reconstructOnImport_def
    by (rule allocate_fresh) (simp_all add: foldl_importCountStep_bound [OF assms] foldl_importCountStep_mono)
qed

text \<open>
  C8 (what the code does). For the text \<^verbatim>\<open>{"nodes":[{}],"edges":[]}\<close> the fields
  \<^verbatim>\<open>nodes\<close> and \<^verbatim>\<open>edges\<close> are present, so the nodes, the edges, the history and
  the current index are written; then reading the label of the node, which has no
  \<^verbatim>\<open>data\<close>, throws, and \<^verbatim>\<open>importFunnel\<close> returns \<^verbatim>\<open>false\<close> with these writes
  made. A text that does not parse, or lacks a field, is rejected with nothing written
  (\<open>importFunnel_rejects\<close>), and an exported funnel state is accepted
  (\<open>importFunnel_encode\<close>).
\<close>

theorem import_fails_after_writes:
  "importFunnel (Some (JObject [(''nodes'', JArray [JObject []]), (''edges'', JArray [])])) =
     (False, [SetNodes (JArray [JObject []]), SetEdges (JArray []),
              SetHistory [(JArray [JObject []], JArray [])], SetCurrentIndex 0])"
  by (simp add: importFunnel_def importFunnelBody_def getProperty_def truthy_def forEachNode_def
      importLabelStep_def)

text \<open>
  C9 (what the code does). For a single upsell node labelled \<^verbatim>\<open>Special Offer\<close>, a
  label with no trailing integer, the load effect raises the upsell counter to 1, and
  \<^verbatim>\<open>importFunnel\<close>, whose callback has no such branch, leaves it at 0. On both paths
  the counters bound every trailing integer of their kind (\<open>foldl_loadCountStep_bound\<close>,
  \<open>foldl_importCountStep_bound\<close>) and the next label allocated for a kind differs from
  the label of every node of that kind (\<open>reconstruct_fresh\<close>).
\<close>

theorem import_skips_unnumbered_labels:
  "reconstructOnLoad
     [\<lparr>node_id = ''upsell-7'', position = (0, 0),
       data = \<lparr>label = ''Special Offer'', nodeType = upsell, buttonLabel = ''Yes, Add This!'',
                hasWarning = None, warningMessage = None\<rparr>\<rparr>] upsell = 1 \<and>
   reconstructOnImport
     [\<lparr>node_id = ''upsell-7'', position = (0, 0),
       data = \<lparr>label = ''Special Offer'', nodeType = upsell, buttonLabel = ''Yes, Add This!'',
                hasWarning = None, warningMessage = None\<rparr>\<rparr>] upsell = 0"
  by (simp add: reconstructOnLoad_def reconstructOnImport_def loadCountStep_def importCountStep_def
      matchTrailingInt_def isDigit_def createLabelCounter_def)

section \<open>Drags and the drag timer\<close>




















section \<open>Undo and redo over runs with drags\<close>












lemmas run_defs = store_defs applyEvents_def onNodesChange_def dragTimerCallback_def




lemma example_pending_before:
  "position (hd (nodes (applyEvents [Mutation (AddNode upsell (0, 0) 5),
      Mutation (OnNodesChange True (map (\<lambda>n. n\<lparr>position := (1, 1)\<rparr>)))] (initialize Absent))))
   = (1, 1)"
  by (simp add: run_defs initialNodes_def validationPass_def validatedNode_withWarning withWarning_def)

lemma example_pending_after:
  "position (hd (nodes ((redo ^^ 1) ((undo ^^ 1) (applyEvents [Mutation (AddNode upsell (0, 0) 5),
      Mutation (OnNodesChange True (map (\<lambda>n. n\<lparr>position := (1, 1)\<rparr>)))] (initialize Absent))))))
   = (250, 50)"
  by (simp add: run_defs initialNodes_def validationPass_def validatedNode_withWarning withWarning_def)

lemma position_validationPass: "map position (validationPass es nds) = map position nds"
  by (simp add: validationPass_def validatedNode_withWarning withWarning_def)

lemma undo_redo_pending_drag_example:
  "nodes ((redo ^^ 1) ((undo ^^ 1) (applyEvents [Mutation (AddNode upsell (0, 0) 5),
      Mutation (OnNodesChange True (map (\<lambda>n. n\<lparr>position := (1, 1)\<rparr>)))] (initialize Absent))))
   \<noteq> validationPass
        (edges (applyEvents [Mutation (AddNode upsell (0, 0) 5),
           Mutation (OnNodesChange True (map (\<lambda>n. n\<lparr>position := (1, 1)\<rparr>)))] (initialize Absent)))
        (nodes (applyEvents [Mutation (AddNode upsell (0, 0) 5),
           Mutation (OnNodesChange True (map (\<lambda>n. n\<lparr>position := (1, 1)\<rparr>)))] (initialize Absent)))"
  (is "nodes ?r \<noteq> validationPass (edges ?s) (nodes ?s)")
proof
  assume "nodes ?r = validationPass (edges ?s) (nodes ?s)"
  then have "map position (nodes ?r) = map position (nodes ?s)"
    by (simp add: position_validationPass)
  moreover have "nodes ?s \<noteq> []" "nodes ?r \<noteq> []"
    by (simp_all add: run_defs initialNodes_def validationPass_def)
  ultimately have "position (hd (nodes ?r)) = position (hd (nodes ?s))"
    by (metis hd_map)
  then show False
    by (simp only: example_pending_before example_pending_after) simp
qed

lemma example_superseded_before:
  "length (nodes (applyEvents [Mutation (OnNodesChange True (map (\<lambda>n. n\<lparr>position := (1, 1)\<rparr>))),
      Mutation (OnNodesChange False (filter (\<lambda>n. node_id n \<noteq> ''thankyou-1''))), TimerFires]
      (initialize Absent))) = 2"
  by (simp add: run_defs initialNodes_def validationPass_def)

lemma example_superseded_after:
  "length (nodes ((redo ^^ 1) ((undo ^^ 1)
     (applyEvents [Mutation (OnNodesChange True (map (\<lambda>n. n\<lparr>position := (1, 1)\<rparr>))),
      Mutation (OnNodesChange False (filter (\<lambda>n. node_id n \<noteq> ''thankyou-1''))), TimerFires]
      (initialize Absent))))) = 3"
  by (simp add: run_defs initialNodes_def validationPass_def)

lemma undo_redo_superseded_timer_example:
  "nodes ((redo ^^ 1) ((undo ^^ 1)
     (applyEvents [Mutation (OnNodesChange True (map (\<lambda>n. n\<lparr>position := (1, 1)\<rparr>))),
      Mutation (OnNodesChange False (filter (\<lambda>n. node_id n \<noteq> ''thankyou-1''))), TimerFires]
      (initialize Absent))))
   \<noteq> validationPass
        (edges (applyEvents [Mutation (OnNodesChange True (map (\<lambda>n. n\<lparr>position := (1, 1)\<rparr>))),
           Mutation (OnNodesChange False (filter (\<lambda>n. node_id n \<noteq> ''thankyou-1''))), TimerFires]
           (initialize Absent)))
        (nodes (applyEvents [Mutation (OnNodesChange True (map (\<lambda>n. n\<lparr>position := (1, 1)\<rparr>))),
           Mutation (OnNodesChange False (filter (\<lambda>n. node_id n \<noteq> ''thankyou-1''))), TimerFires]
           (initialize Absent)))"
  (is "nodes ?r \<noteq> validationPass (edges ?s) (nodes ?s)")
proof
  assume "nodes ?r = validationPass (edges ?s) (nodes ?s)"
  then have "length (nodes ?r) = length (nodes ?s)" by simp
  then show False
    by (simp only: example_superseded_before example_superseded_after)
qed

end
